theory Spec2Isabelle
  imports Main "HOL-Library.AList"
begin

section \<open>Python strings and the built-in string methods the program calls\<close>

text \<open>
  A Python \<open>str\<close> is a sequence of Unicode code points. A code point is modelled as a
  natural number and a string as a list of them, so that the line boundaries and the
  white space beyond ASCII (\<open>U+0085\<close>, \<open>U+2028\<close>, ...) are the ones Python uses.
  \<open>ustr\<close> embeds an ASCII literal of the source.
\<close>

type_synonym codepoint = nat
type_synonym pystr = "codepoint list"

definition ustr :: "string \<Rightarrow> pystr" where
  "ustr s = map of_char s"

text \<open>
  \<open>str.isspace\<close> on one character, which is what \<open>str.strip()\<close> without argument removes:
  \<open>\t \n \v \f \r\<close>, \<open>U+001C..U+001F\<close>, space, \<open>U+0085\<close>, \<open>U+00A0\<close>, \<open>U+1680\<close>,
  \<open>U+2000..U+200A\<close>, \<open>U+2028\<close>, \<open>U+2029\<close>, \<open>U+202F\<close>, \<open>U+205F\<close>, \<open>U+3000\<close>.
\<close>

definition is_space :: "codepoint \<Rightarrow> bool" where
  "is_space c =
     ((9 \<le> c \<and> c \<le> 13) \<or> (28 \<le> c \<and> c \<le> 32) \<or> c = 133 \<or> c = 160 \<or> c = 5760
      \<or> (8192 \<le> c \<and> c \<le> 8202) \<or> c = 8232 \<or> c = 8233 \<or> c = 8239 \<or> c = 8287
      \<or> c = 12288)"

text \<open>
  The line boundaries of \<open>str.splitlines\<close>: \<open>\n\<close>, \<open>\v\<close>, \<open>\f\<close>, \<open>\r\<close>, \<open>\x1c\<close>, \<open>\x1d\<close>,
  \<open>\x1e\<close>, \<open>\x85\<close>, \<open>U+2028\<close>, \<open>U+2029\<close>; \<open>\r\n\<close> is one boundary.
\<close>

definition is_linebreak :: "codepoint \<Rightarrow> bool" where
  "is_linebreak c = (c \<in> {10, 11, 12, 13, 28, 29, 30, 133, 8232, 8233})"

text \<open>
  \<open>str.splitlines()\<close>: the scan of CPython, with the line read so far in \<open>cur\<close>. A line is
  emitted at each boundary (also when it is empty), and at the end of the text only when
  characters remain after the last boundary.
\<close>

fun splitlines_aux :: "pystr \<Rightarrow> pystr \<Rightarrow> pystr list" where
  "splitlines_aux cur [] = (if cur = [] then [] else [cur])"
| "splitlines_aux cur [c] =
     (if is_linebreak c then cur # splitlines_aux [] [] else splitlines_aux (cur @ [c]) [])"
| "splitlines_aux cur (c # d # cs) =
     (if c = 13 \<and> d = 10 then cur # splitlines_aux [] cs
      else if is_linebreak c then cur # splitlines_aux [] (d # cs)
      else splitlines_aux (cur @ [c]) (d # cs))"

definition splitlines :: "pystr \<Rightarrow> pystr list" where
  "splitlines s = splitlines_aux [] s"

text \<open>\<open>str.strip()\<close>: leading and trailing white space removed.\<close>

definition lstrip :: "pystr \<Rightarrow> pystr" where
  "lstrip s = dropWhile is_space s"

definition rstrip :: "pystr \<Rightarrow> pystr" where
  "rstrip s = rev (dropWhile is_space (rev s))"

definition strip :: "pystr \<Rightarrow> pystr" where
  "strip s = lstrip (rstrip s)"

text \<open>\<open>str.rstrip(chars)\<close>: every trailing character that occurs in \<open>chars\<close> removed.\<close>

definition rstrip_chars :: "pystr \<Rightarrow> pystr \<Rightarrow> pystr" where
  "rstrip_chars chars s = rev (dropWhile (\<lambda>c. c \<in> set chars) (rev s))"

text \<open>
  \<open>str.split(sep)\<close> for a separator of one character: the pieces between the
  separators, empty pieces kept, so that \<open>n\<close> separators give \<open>n + 1\<close> pieces.
\<close>

fun split_aux :: "codepoint \<Rightarrow> pystr \<Rightarrow> pystr \<Rightarrow> pystr list" where
  "split_aux sep cur [] = [cur]"
| "split_aux sep cur (c # cs) =
     (if c = sep then cur # split_aux sep [] cs else split_aux sep (cur @ [c]) cs)"

definition split_on :: "codepoint \<Rightarrow> pystr \<Rightarrow> pystr list" where
  "split_on sep s = split_aux sep [] s"

definition startswith :: "pystr \<Rightarrow> pystr \<Rightarrow> bool" where
  "startswith s pre = (take (length pre) s = pre)"

text \<open>\<open>x or ""\<close> for an optional string: \<open>None\<close> and the empty string both give \<open>""\<close>.\<close>

definition or_empty :: "pystr option \<Rightarrow> pystr" where
  "or_empty x = (case x of None \<Rightarrow> [] | Some s \<Rightarrow> s)"

section \<open>JSON values and dictionaries\<close>

text \<open>
  The payload and the response body are JSON values. A dictionary is an association list
  in insertion order; \<open>d[k] = v\<close> is \<open>AList.update k v d\<close> (the value replaced in place, or
  the pair appended) and a lookup is \<open>map_of d k\<close>. Floating-point numbers are left out:
  the program builds none and inspects none.
\<close>

datatype json =
    JNull
  | JBool bool
  | JInt int
  | JStr pystr
  | JList "json list"
  | JObj "(pystr \<times> json) list"

section \<open>The Document Converter and the label parser\<close>

text \<open>The dictionary appended to \<open>content\<close> for one line (source lines 53 to 58).\<close>

definition paragraph_node :: "pystr \<Rightarrow> json" where
  "paragraph_node line =
     JObj [(ustr ''type'', JStr (ustr ''paragraph'')),
           (ustr ''content'',
              JList [JObj [(ustr ''type'', JStr (ustr ''text'')), (ustr ''text'', JStr line)]])]"

definition to_adf_doc :: "pystr option \<Rightarrow> json" where
  "to_adf_doc text =
     (let ls = splitlines (or_empty text);
          lines = (if ls = [] then [[]] else ls);
          content = map paragraph_node lines
      in JObj [(ustr ''type'', JStr (ustr ''doc'')), (ustr ''version'', JInt 1),
               (ustr ''content'', JList content)])"

definition parse_labels :: "pystr option \<Rightarrow> pystr list" where
  "parse_labels value =
     (case value of
        None \<Rightarrow> []
      | Some v \<Rightarrow>
          if v = [] then []
          else map strip (filter (\<lambda>p. strip p \<noteq> []) (split_on 44 v)))"

section \<open>The Field Mapper\<close>

text \<open>
  A row of \<open>csv.DictReader\<close> maps a column name to its cell; the cell of a short line is
  \<open>None\<close> (the reader's \<open>restval\<close>). \<open>row.get(k)\<close> is \<open>None\<close> for a missing column as well.
\<close>

type_synonym row = "pystr \<Rightarrow> pystr option option"

definition row_get :: "row \<Rightarrow> pystr \<Rightarrow> pystr option" where
  "row_get r k = (case r k of None \<Rightarrow> None | Some v \<Rightarrow> v)"

text \<open>
  The two module-level tables of the source (lines 23 to 35). The functions below take
  the tables as arguments, since the source asks its user to edit them; \<open>FIELD_MAP\<close> and
  \<open>CUSTOM_FIELD_AS_LIST\<close> are the values the source ships. A dictionary is iterated in
  insertion order and its keys are distinct.
\<close>

definition FIELD_MAP :: "(pystr \<times> pystr) list" where
  "FIELD_MAP =
     [(ustr ''Summary'', ustr ''summary''),
      (ustr ''Labels'', ustr ''labels''),
      (ustr ''Description'', ustr ''description'')]"

definition CUSTOM_FIELD_AS_LIST :: "pystr list" where
  "CUSTOM_FIELD_AS_LIST = []"

text \<open>Truth value of an optional string: \<open>None\<close> and \<open>""\<close> are false.\<close>

definition truthy :: "pystr option \<Rightarrow> bool" where
  "truthy x = (case x of None \<Rightarrow> False | Some s \<Rightarrow> s \<noteq> [])"

text \<open>One iteration of the loop over \<open>FIELD_MAP.items()\<close> (source lines 93 to 116).\<close>

definition map_field ::
  "pystr list \<Rightarrow> row \<Rightarrow> (pystr \<times> json) list \<Rightarrow> pystr \<times> pystr \<Rightarrow> (pystr \<times> json) list" where
  "map_field cfl r fields cf =
     (case cf of (csv_col, jira_field) \<Rightarrow>
        let val = strip (or_empty (row_get r csv_col)) in
        if val = [] \<and> jira_field = ustr ''summary'' then fields
        else if jira_field = ustr ''labels'' then
          AList.update (ustr ''labels'') (JList (map JStr (parse_labels (Some val)))) fields
        else if jira_field = ustr ''description'' then
          AList.update (ustr ''description'') (to_adf_doc (Some val)) fields
        else if startswith jira_field (ustr ''customfield_'') then
          (if jira_field \<in> set cfl then
             AList.update jira_field (JList (if val = [] then [] else [JStr val])) fields
           else AList.update jira_field (JStr val) fields)
        else AList.update jira_field (JStr val) fields)"

definition create_issue_payload ::
  "(pystr \<times> pystr) list \<Rightarrow> pystr list \<Rightarrow> row \<Rightarrow> pystr \<Rightarrow> pystr \<Rightarrow> pystr option \<Rightarrow> pystr option
     \<Rightarrow> json" where
  "create_issue_payload fm cfl r project_key issue_type epic_key assignee_account_id =
     (let fields0 = [(ustr ''project'', JObj [(ustr ''key'', JStr project_key)]),
                     (ustr ''issuetype'', JObj [(ustr ''name'', JStr issue_type)])];
          fields1 = foldl (map_field cfl r) fields0 fm;
          fields2 = (if truthy assignee_account_id then
                       AList.update (ustr ''assignee'')
                         (JObj [(ustr ''accountId'', JStr (or_empty assignee_account_id))]) fields1
                     else fields1);
          fields3 = (if truthy epic_key then
                       AList.update (ustr ''parent'')
                         (JObj [(ustr ''key'', JStr (or_empty epic_key))]) fields2
                     else fields2)
      in JObj [(ustr ''fields'', JObj fields3)])"

section \<open>The Issue Creator\<close>

text \<open>
  Every \<open>raise\<close> of the source, and every exception its calls can raise inside
  \<open>create_issue\<close>, is a value of \<open>error\<close>:
  \<^item> \<open>MissingEnv k\<close>: \<open>RuntimeError("Missing required environment variable: k")\<close>;
  \<^item> \<open>FileNotFound p\<close>: \<open>FileNotFoundError("CSV not found: p")\<close>;
  \<^item> \<open>NoHeaders\<close>: \<open>RuntimeError("CSV has no headers.")\<close>;
  \<^item> \<open>HttpStatus c t\<close>: \<open>RuntimeError("c t")\<close>, status code and response text;
  \<^item> \<open>TransportError m\<close>: an exception of \<open>requests.post\<close> (no connection, timeout);
  \<^item> \<open>JsonDecodeError\<close>: \<open>resp.json()\<close> raised;
  \<^item> \<open>KeyError k\<close>: \<open>data[k]\<close> on a dictionary without \<open>k\<close>;
  \<^item> \<open>TypeError\<close>: \<open>data["key"]\<close> on a value that is no dictionary.
\<close>

datatype error =
    MissingEnv pystr
  | FileNotFound pystr
  | NoHeaders
  | HttpStatus int pystr
  | TransportError pystr
  | JsonDecodeError
  | KeyError pystr
  | TypeError

text \<open>The process environment after \<open>load_dotenv()\<close>; \<open>os.getenv\<close> is the lookup.\<close>

type_synonym environ = "pystr \<Rightarrow> pystr option"

definition env_required :: "environ \<Rightarrow> pystr \<Rightarrow> error + pystr" where
  "env_required env k =
     (case env k of
        None \<Rightarrow> Inl (MissingEnv k)
      | Some val \<Rightarrow> if val = [] then Inl (MissingEnv k) else Inr val)"

definition getenv_default :: "environ \<Rightarrow> pystr \<Rightarrow> pystr \<Rightarrow> pystr" where
  "getenv_default env k d = (case env k of None \<Rightarrow> d | Some v \<Rightarrow> v)"

definition jira_auth :: "environ \<Rightarrow> error + (pystr \<times> pystr)" where
  "jira_auth env =
     (case env_required env (ustr ''JIRA_EMAIL'') of
        Inl e \<Rightarrow> Inl e
      | Inr email \<Rightarrow>
          (case env_required env (ustr ''JIRA_API_TOKEN'') of
             Inl e \<Rightarrow> Inl e
           | Inr token \<Rightarrow> Inr (email, token)))"

definition jira_base_url :: "environ \<Rightarrow> error + pystr" where
  "jira_base_url env =
     (case env_required env (ustr ''JIRA_BASE_URL'') of
        Inl e \<Rightarrow> Inl e
      | Inr v \<Rightarrow> Inr (rstrip_chars (ustr ''/'') v))"

text \<open>The URL of source line 134.\<close>

definition issue_url :: "pystr \<Rightarrow> pystr" where
  "issue_url base = base @ ustr ''/rest/api/3/issue''"

record request =
  req_url :: pystr
  req_headers :: "(pystr \<times> pystr) list"
  req_auth :: "pystr \<times> pystr"
  req_json :: json
  req_timeout :: nat

text \<open>
  What the program reads of a response: the status code, the text, and the outcome of
  \<open>resp.json()\<close> (\<open>None\<close> when it raises). Parsing belongs to the HTTP library.
\<close>

record response =
  resp_status_code :: int
  resp_text :: pystr
  resp_json :: "json option"

text \<open>\<open>data["key"]\<close> (source line 151).\<close>

definition subscript_key :: "json \<Rightarrow> error + json" where
  "subscript_key data =
     (case data of
        JObj kv \<Rightarrow>
          (case map_of kv (ustr ''key'') of
             None \<Rightarrow> Inl (KeyError (ustr ''key''))
           | Some v \<Rightarrow> Inr v)
      | _ \<Rightarrow> Inl TypeError)"

text \<open>Source lines 147 to 151: what \<open>create_issue\<close> does with the response.\<close>

definition handle_response :: "response \<Rightarrow> error + json" where
  "handle_response resp =
     (if resp_status_code resp \<ge> 300 then
        Inl (HttpStatus (resp_status_code resp) (resp_text resp))
      else
        (case resp_json resp of
           None \<Rightarrow> Inl JsonDecodeError
         | Some data \<Rightarrow> subscript_key data))"

text \<open>
  The service is outside the program: \<open>post w req\<close> is what \<open>requests.post\<close> does in the
  world \<open>w\<close>, a response or the message of the exception it raises, and the world after
  the call. \<open>create_issue\<close> reads its settings in the order of the source: base URL,
  project key, then (as an argument of the call) e-mail and token.
\<close>

definition create_issue ::
  "(pystr \<times> pystr) list \<Rightarrow> pystr list \<Rightarrow> environ \<Rightarrow> ('w \<Rightarrow> request \<Rightarrow> (pystr + response) \<times> 'w)
     \<Rightarrow> 'w \<Rightarrow> row \<Rightarrow> (error + json) \<times> 'w" where
  "create_issue fm cfl env post w r =
     (case jira_base_url env of
        Inl e \<Rightarrow> (Inl e, w)
      | Inr base \<Rightarrow>
          (case env_required env (ustr ''JIRA_PROJECT_KEY'') of
             Inl e \<Rightarrow> (Inl e, w)
           | Inr project_key \<Rightarrow>
               let issue_type = getenv_default env (ustr ''JIRA_ISSUE_TYPE'') (ustr ''Task'');
                   epic_key = env (ustr ''EPIC_KEY'');
                   assignee_account_id = env (ustr ''ASSIGNEE_ACCOUNT_ID'');
                   payload = create_issue_payload fm cfl r project_key issue_type epic_key
                               assignee_account_id;
                   headers = [(ustr ''Accept'', ustr ''application/json''),
                              (ustr ''Content-Type'', ustr ''application/json'')]
               in
                 (case jira_auth env of
                    Inl e \<Rightarrow> (Inl e, w)
                  | Inr auth \<Rightarrow>
                      (case post w \<lparr>req_url = issue_url base, req_headers = headers,
                                    req_auth = auth, req_json = payload, req_timeout = 60\<rparr> of
                         (Inl msg, w') \<Rightarrow> (Inl (TransportError msg), w')
                       | (Inr resp, w') \<Rightarrow> (handle_response resp, w')))))"

section \<open>The Batch Runner\<close>

text \<open>
  The lines written to standard output, by the \<open>print\<close> that writes them:
  \<open>DebugHeaders\<close> (line 166), \<open>DebugHeader h\<close> (line 168), \<open>CreatedLine i key\<close> for
  \<open>[i] Created key\<close>, \<open>ErrorLine i e\<close> for \<open>[i] ERROR e\<close>, \<open>DoneLine n\<close> for
  \<open>Done. Created n issues.\<close>
\<close>

datatype out_line =
    DebugHeaders
  | DebugHeader pystr
  | CreatedLine nat json
  | ErrorLine nat error
  | DoneLine nat

record 'w run_state =
  out :: "out_line list"
  created :: nat
  world :: 'w

text \<open>
  The body of the loop (source lines 172 to 177) for the row at position \<open>i\<close>, and the
  loop over the rows that \<open>enumerate(reader, start=1)\<close> yields.
\<close>

definition process_row ::
  "(pystr \<times> pystr) list \<Rightarrow> pystr list \<Rightarrow> environ \<Rightarrow> ('w \<Rightarrow> request \<Rightarrow> (pystr + response) \<times> 'w)
     \<Rightarrow> 'w run_state \<Rightarrow> nat \<Rightarrow> row \<Rightarrow> 'w run_state" where
  "process_row fm cfl env post st i r =
     (case create_issue fm cfl env post (world st) r of
        (Inr k, w') \<Rightarrow>
          \<lparr>out = out st @ [CreatedLine i k], created = created st + 1, world = w'\<rparr>
      | (Inl e, w') \<Rightarrow>
          \<lparr>out = out st @ [ErrorLine i e], created = created st, world = w'\<rparr>)"

fun process_rows ::
  "(pystr \<times> pystr) list \<Rightarrow> pystr list \<Rightarrow> environ \<Rightarrow> ('w \<Rightarrow> request \<Rightarrow> (pystr + response) \<times> 'w)
     \<Rightarrow> 'w run_state \<Rightarrow> nat \<Rightarrow> row list \<Rightarrow> 'w run_state" where
  "process_rows fm cfl env post st i [] = st"
| "process_rows fm cfl env post st i (r # rest) =
     process_rows fm cfl env post (process_row fm cfl env post st i r) (i + 1) rest"

text \<open>
  The input file as \<open>csv.DictReader\<close> presents it: the header names and the rows. The file
  system maps a path that exists to the file there. Reading and parsing the file belong
  to the standard library.
\<close>

record csv_file =
  csv_fieldnames :: "pystr list"
  csv_rows :: "row list"

text \<open>
  \<open>main\<close> returns the final state and the exception that ended the run, if any.
\<close>

definition main ::
  "(pystr \<times> pystr) list \<Rightarrow> pystr list \<Rightarrow> environ \<Rightarrow> (pystr \<Rightarrow> csv_file option)
     \<Rightarrow> ('w \<Rightarrow> request \<Rightarrow> (pystr + response) \<times> 'w) \<Rightarrow> 'w \<Rightarrow> 'w run_state \<times> error option" where
  "main fm cfl env fs post w =
     (let st0 = \<lparr>out = [], created = 0, world = w\<rparr> in
      case env_required env (ustr ''CSV_PATH'') of
        Inl e \<Rightarrow> (st0, Some e)
      | Inr csv_path \<Rightarrow>
          (case fs csv_path of
             None \<Rightarrow> (st0, Some (FileNotFound csv_path))
           | Some f \<Rightarrow>
               if csv_fieldnames f = [] then (st0, Some NoHeaders)
               else
                 let st1 = st0\<lparr>out := DebugHeaders # map DebugHeader (csv_fieldnames f)\<rparr>;
                     st2 = process_rows fm cfl env post st1 1 (csv_rows f)
                 in (st2\<lparr>out := out st2 @ [DoneLine (created st2)]\<rparr>, None)))"

section \<open>Notions of the specification\<close>

text \<open>
  The number of line terminators of a text, as a reader counts them: every line-boundary
  character is one terminator, except that a carriage return directly followed by a line
  feed forms a single terminator with it.
\<close>

definition crlf_pairs :: "pystr \<Rightarrow> nat" where
  "crlf_pairs s = length (filter (\<lambda>(a, b). a = 13 \<and> b = 10) (zip s (tl s)))"

definition num_terminators :: "pystr \<Rightarrow> nat" where
  "num_terminators s = length (filter is_linebreak s) - crlf_pairs s"

text \<open>
  The number of lines of a text: one per terminator, and one more for the characters
  after the last terminator, if there are any.
\<close>

definition num_lines :: "pystr \<Rightarrow> nat" where
  "num_lines s =
     num_terminators s + (if s = [] then 0 else if is_linebreak (last s) then 0 else 1)"

text \<open>\<open>sep.join(pieces)\<close>, the inverse of splitting at \<open>sep\<close>.\<close>

fun join_with :: "codepoint \<Rightarrow> pystr list \<Rightarrow> pystr" where
  "join_with sep [] = []"
| "join_with sep [p] = p"
| "join_with sep (p # q # ps) = p @ sep # join_with sep (q # ps)"

text \<open>
  The value that one iteration of the mapping loop stores under its target field, read off
  the branches of \<open>map_field\<close>; it serves to state what the loop does to a dictionary.
\<close>

definition field_value :: "pystr list \<Rightarrow> pystr \<Rightarrow> pystr \<Rightarrow> json" where
  "field_value cfl jira_field val =
     (if jira_field = ustr ''labels'' then JList (map JStr (parse_labels (Some val)))
      else if jira_field = ustr ''description'' then to_adf_doc (Some val)
      else if startswith jira_field (ustr ''customfield_'') \<and> jira_field \<in> set cfl then
        JList (if val = [] then [] else [JStr val])
      else JStr val)"

text \<open>
  The request that \<open>create_issue\<close> hands to \<open>requests.post\<close> (source lines 133 to 146),
  named so that statements can speak about it; \<open>create_issue_post\<close> below proves that it is
  the request of \<open>create_issue\<close>.
\<close>

definition issue_request ::
  "(pystr \<times> pystr) list \<Rightarrow> pystr list \<Rightarrow> environ \<Rightarrow> pystr \<Rightarrow> pystr \<Rightarrow> pystr \<times> pystr \<Rightarrow> row
     \<Rightarrow> request" where
  "issue_request fm cfl env base pk auth r =
     \<lparr>req_url = issue_url base,
      req_headers = [(ustr ''Accept'', ustr ''application/json''),
                     (ustr ''Content-Type'', ustr ''application/json'')],
      req_auth = auth,
      req_json = create_issue_payload fm cfl r pk
                   (getenv_default env (ustr ''JIRA_ISSUE_TYPE'') (ustr ''Task''))
                   (env (ustr ''EPIC_KEY'')) (env (ustr ''ASSIGNEE_ACCOUNT_ID'')),
      req_timeout = 60\<rparr>"

text \<open>
  The identifier that can be extracted from a response: the value under \<open>key\<close> when the
  body parses to a JSON object that has this key.
\<close>

definition key_of :: "response \<Rightarrow> json option" where
  "key_of resp =
     (case resp_json resp of
        Some (JObj kv) \<Rightarrow> map_of kv (ustr ''key'')
      | _ \<Rightarrow> None)"

section \<open>Example inputs\<close>

text \<open>
  A service that answers the requests, whatever they are, with the answers of a script,
  one per request, and refuses the connection once the script is used up. The world is
  the rest of the script.
\<close>

definition scripted ::
  "(pystr + response) list \<Rightarrow> request \<Rightarrow> (pystr + response) \<times> (pystr + response) list" where
  "scripted w req =
     (case w of [] \<Rightarrow> (Inl (ustr ''connection refused''), []) | x # xs \<Rightarrow> (x, xs))"

text \<open>An environment with every required setting; the base URL ends in two slashes.\<close>

definition env_full :: environ where
  "env_full =
     map_of [(ustr ''JIRA_BASE_URL'', ustr ''https://example.atlassian.net//''),
             (ustr ''JIRA_EMAIL'', ustr ''me@example.com''),
             (ustr ''JIRA_API_TOKEN'', ustr ''secret''),
             (ustr ''JIRA_PROJECT_KEY'', ustr ''PROJ''),
             (ustr ''CSV_PATH'', ustr ''issues.csv'')]"

text \<open>The same environment with the base URL written without trailing slash.\<close>

definition env_plain :: environ where
  "env_plain = env_full(ustr ''JIRA_BASE_URL'' \<mapsto> ustr ''https://example.atlassian.net'')"

text \<open>A row and three responses: created, an informational status, a client error.\<close>

definition example_row :: row where
  "example_row = (\<lambda>k. None)(ustr ''Summary'' := Some (Some (ustr ''Fix bug'')))"

definition key_body :: pystr where
  "key_body = ustr ''{'' @ [34] @ ustr ''key'' @ [34] @ ustr '': '' @ [34] @ ustr ''PROJ-1''
                @ [34] @ ustr ''}''"

definition resp_created :: response where
  "resp_created =
     \<lparr>resp_status_code = 201, resp_text = key_body,
      resp_json = Some (JObj [(ustr ''key'', JStr (ustr ''PROJ-1''))])\<rparr>"

definition resp_informational :: response where
  "resp_informational =
     \<lparr>resp_status_code = 199, resp_text = key_body,
      resp_json = Some (JObj [(ustr ''key'', JStr (ustr ''PROJ-1''))])\<rparr>"

definition resp_bad_request :: response where
  "resp_bad_request =
     \<lparr>resp_status_code = 400, resp_text = ustr ''Bad Request'', resp_json = None\<rparr>"

section \<open>Lemmas on the string methods\<close>

lemma is_linebreak_CR: "is_linebreak 13"
  by (simp add: is_linebreak_def)

lemma is_linebreak_LF: "is_linebreak 10"
  by (simp add: is_linebreak_def)

lemma crlf_pairs_simps:
  "crlf_pairs [] = 0" "crlf_pairs [c] = 0"
  "crlf_pairs (c # d # cs) = (if c = 13 \<and> d = 10 then 1 else 0) + crlf_pairs (d # cs)"
  by (simp_all add: crlf_pairs_def)

lemma crlf_pairs_le: "crlf_pairs s + (if s \<noteq> [] \<and> hd s = 10 then 1 else 0) \<le> length (filter is_linebreak s)"
proof (induction s rule: induct_list012)
  case 1 show ?case by (simp add: crlf_pairs_simps)
next
  case (2 x) show ?case by (simp add: crlf_pairs_simps is_linebreak_LF)
next
  case (3 c d cs)
  then show ?case by (auto simp: crlf_pairs_simps is_linebreak_LF is_linebreak_CR)
qed

lemma num_terminators_simps:
  "num_terminators [] = 0"
  "num_terminators [c] = (if is_linebreak c then 1 else 0)"
  "num_terminators (c # d # cs) =
     (if c = 13 \<and> d = 10 then 1 + num_terminators cs
      else (if is_linebreak c then 1 else 0) + num_terminators (d # cs))"
proof -
  show "num_terminators [] = 0" by (simp add: num_terminators_def)
  show "num_terminators [c] = (if is_linebreak c then 1 else 0)"
    by (simp add: num_terminators_def crlf_pairs_simps)
  have le1: "crlf_pairs (d # cs) \<le> length (filter is_linebreak (d # cs))"
    using crlf_pairs_le [of "d # cs"] by (simp split: if_splits)
  have le2: "crlf_pairs cs \<le> length (filter is_linebreak cs)"
    using crlf_pairs_le [of cs] by (simp split: if_splits)
  have lf: "crlf_pairs (10 # cs) = crlf_pairs cs"
    by (cases cs) (simp_all add: crlf_pairs_simps)
  show "num_terminators (c # d # cs) =
     (if c = 13 \<and> d = 10 then 1 + num_terminators cs
      else (if is_linebreak c then 1 else 0) + num_terminators (d # cs))"
    using le1 le2 lf
    by (auto simp: num_terminators_def crlf_pairs_simps is_linebreak_LF is_linebreak_CR)
qed

lemma length_splitlines_aux:
  "length (splitlines_aux cur s) =
     num_terminators s + (if s = [] then (if cur = [] then 0 else 1)
                          else if is_linebreak (last s) then 0 else 1)"
  by (induction cur s rule: splitlines_aux.induct)
     (auto simp: num_terminators_simps is_linebreak_LF is_linebreak_CR)

lemma splitlines_aux_Nil_iff: "splitlines_aux cur s = [] \<longleftrightarrow> cur = [] \<and> s = []"
  by (induction cur s rule: splitlines_aux.induct) auto

lemma concat_splitlines_aux:
  "concat (splitlines_aux cur s) = cur @ filter (\<lambda>c. \<not> is_linebreak c) s"
  by (induction cur s rule: splitlines_aux.induct)
     (auto simp: is_linebreak_LF is_linebreak_CR)

lemma splitlines_aux_append_break:
  "body \<noteq> [] \<Longrightarrow> \<not> is_linebreak (last body) \<Longrightarrow> is_linebreak t \<Longrightarrow>
     splitlines_aux cur (body @ [t]) = splitlines_aux cur body"
proof (induction cur body rule: splitlines_aux.induct)
  case (1 cur) then show ?case by simp
next
  case (2 cur c) then show ?case by (auto simp: is_linebreak_CR)
next
  case (3 cur c d cs) 
  then show ?case
    by (cases cs; cases "is_linebreak c")
       (auto simp: is_linebreak_LF is_linebreak_CR split: if_splits)
qed


lemma join_with_Cons: "ps \<noteq> [] \<Longrightarrow> join_with sep (p # ps) = p @ sep # join_with sep ps"
  by (cases ps) simp_all

lemma split_aux_not_Nil: "split_aux sep cur s \<noteq> []"
  by (induction s arbitrary: cur) simp_all

lemma join_split_aux: "join_with sep (split_aux sep cur s) = cur @ s"
  by (induction s arbitrary: cur) (simp_all add: join_with_Cons split_aux_not_Nil)

lemma split_aux_no_sep:
  "sep \<notin> set cur \<Longrightarrow> \<forall>p\<in>set (split_aux sep cur s). sep \<notin> set p"
proof (induction s arbitrary: cur)
  case Nil
  then show ?case by simp
next
  case (Cons a s)
  show ?case
  proof (cases "a = sep")
    case True
    then show ?thesis using Cons.prems Cons.IH [of "[]"] by simp
  next
    case False
    then have "sep \<notin> set (cur @ [a])" using Cons.prems by auto
    then show ?thesis using False Cons.IH [of "cur @ [a]"] by simp
  qed
qed

lemma length_split_aux: "length (split_aux sep cur s) = Suc (count_list s sep)"
  by (induction s arbitrary: cur) simp_all

lemma strip_Nil_iff: "strip s = [] \<longleftrightarrow> (\<forall>c\<in>set s. is_space c)"
proof
  assume "strip s = []"
  then have all: "\<forall>c\<in>set (rev (dropWhile is_space (rev s))). is_space c"
    by (simp add: strip_def lstrip_def rstrip_def)
  have "dropWhile is_space (rev s) = []"
  proof (rule ccontr)
    assume ne: "dropWhile is_space (rev s) \<noteq> []"
    then have "\<not> is_space (hd (dropWhile is_space (rev s)))" by (rule hd_dropWhile)
    moreover have "hd (dropWhile is_space (rev s)) \<in> set (dropWhile is_space (rev s))"
      using ne by simp
    ultimately show False using all by simp
  qed
  then show "\<forall>c\<in>set s. is_space c" by simp
next
  assume "\<forall>c\<in>set s. is_space c"
  then have "rstrip s = []" by (simp add: rstrip_def)
  then show "strip s = []" by (simp add: strip_def lstrip_def)
qed

lemma strip_Nil: "strip [] = []"
  by (simp add: strip_def lstrip_def rstrip_def)

lemma parse_labels_eq:
  "parse_labels (Some v) = filter (\<lambda>p. p \<noteq> []) (map strip (split_on 44 v))"
  by (simp add: parse_labels_def split_on_def strip_Nil filter_map comp_def)

section \<open>Lemmas on the field mapper\<close>

lemma map_field_eq:
  "map_field cfl r flds (col, jf) =
     (if strip (or_empty (row_get r col)) = [] \<and> jf = ustr ''summary'' then flds
      else AList.update jf (field_value cfl jf (strip (or_empty (row_get r col)))) flds)"
  by (simp add: map_field_def field_value_def Let_def)

lemma map_field_other:
  "k \<noteq> jf \<Longrightarrow> map_of (map_field cfl r flds (col, jf)) k = map_of flds k"
  by (simp add: map_field_eq update_conv')

lemma foldl_map_field_other:
  "k \<notin> snd ` set fm \<Longrightarrow> map_of (foldl (map_field cfl r) flds fm) k = map_of flds k"
proof (induction fm arbitrary: flds)
  case Nil
  show ?case by simp
next
  case (Cons cf fm)
  obtain col jf where cf: "cf = (col, jf)" by (cases cf)
  from Cons.prems cf have "k \<noteq> jf" "k \<notin> snd ` set fm" by auto
  then show ?case using Cons.IH cf by (simp add: map_field_other)
qed

lemma foldl_map_field_last:
  "k \<notin> snd ` set fm2 \<Longrightarrow>
     map_of (foldl (map_field cfl r) flds (fm1 @ (col, k) # fm2)) k =
     map_of (map_field cfl r (foldl (map_field cfl r) flds fm1) (col, k)) k"
  by (simp add: foldl_map_field_other)


lemma key_facts:
  "ustr ''summary'' \<noteq> ustr ''labels''" "ustr ''summary'' \<noteq> ustr ''description''"
  "\<not> startswith (ustr ''summary'') (ustr ''customfield_'')"
  "ustr ''summary'' \<noteq> ustr ''assignee''" "ustr ''summary'' \<noteq> ustr ''parent''"
  "ustr ''summary'' \<noteq> ustr ''project''" "ustr ''summary'' \<noteq> ustr ''issuetype''"
  "ustr ''labels'' \<noteq> ustr ''summary''"
  "ustr ''labels'' \<noteq> ustr ''assignee''" "ustr ''labels'' \<noteq> ustr ''parent''"
  "ustr ''labels'' \<noteq> ustr ''project''" "ustr ''labels'' \<noteq> ustr ''issuetype''"
  by (simp_all add: ustr_def startswith_def)

lemma field_value_summary: "field_value cfl (ustr ''summary'') val = JStr val"
  by (simp add: field_value_def key_facts)

lemma field_value_labels:
  "field_value cfl (ustr ''labels'') val = JList (map JStr (parse_labels (Some val)))"
  by (simp add: field_value_def)

lemma map_of_update_if:
  "k \<noteq> a \<Longrightarrow> map_of (if c then AList.update a v flds else flds) k = map_of flds k"
  by (simp add: update_conv')

lemma payload_fields:
  assumes "k \<noteq> ustr ''assignee''" and "k \<noteq> ustr ''parent''"
  shows "\<exists>flds. create_issue_payload fm cfl r pk it ek aid = JObj [(ustr ''fields'', JObj flds)]
     \<and> map_of flds k =
         map_of (foldl (map_field cfl r)
                   [(ustr ''project'', JObj [(ustr ''key'', JStr pk)]),
                    (ustr ''issuetype'', JObj [(ustr ''name'', JStr it)])] fm) k"
  unfolding create_issue_payload_def Let_def
  by (rule exI, rule conjI, rule refl) (simp only: map_of_update_if [OF assms(1)] map_of_update_if [OF assms(2)])

lemma single_target_split:
  assumes "filter (\<lambda>cf. snd cf = k) fm = [(col, k)]"
  shows "\<exists>fm1 fm2. fm = fm1 @ (col, k) # fm2 \<and> k \<notin> snd ` set fm1 \<and> k \<notin> snd ` set fm2"
proof -
  from assms obtain us vs where fm: "fm = us @ (col, k) # vs"
    and us: "\<forall>u\<in>set us. \<not> snd u = k" and vs: "[] = filter (\<lambda>cf. snd cf = k) vs"
    unfolding filter_eq_Cons_iff by blast
  from vs [symmetric] have "\<forall>v\<in>set vs. snd v \<noteq> k" by (simp add: filter_empty_conv)
  with us have "k \<notin> snd ` set us" "k \<notin> snd ` set vs" by auto
  with fm show ?thesis by blast
qed

lemma map_field_cong_row:
  "or_empty (row_get r (fst cf)) = or_empty (row_get r' (fst cf)) \<Longrightarrow>
     map_field cfl r flds cf = map_field cfl r' flds cf"
  by (cases cf) (simp add: map_field_eq del: AList.update.simps)

lemma foldl_map_field_cong_row:
  assumes "\<And>c. or_empty (row_get r c) = or_empty (row_get r' c)"
  shows "foldl (map_field cfl r) flds fm = foldl (map_field cfl r') flds fm"
proof (rule foldl_cong)
  fix a x
  show "map_field cfl r a x = map_field cfl r' a x"
    by (rule map_field_cong_row) (rule assms)
qed simp_all


lemma foldl_map_field_fresh:
  "k \<notin> snd ` set fm \<Longrightarrow> k \<noteq> ustr ''project'' \<Longrightarrow> k \<noteq> ustr ''issuetype'' \<Longrightarrow>
     map_of (foldl (map_field cfl r) [(ustr ''project'', a), (ustr ''issuetype'', b)] fm) k = None"
  by (simp add: foldl_map_field_other)

lemma parse_labels_strip_blank:
  "\<forall>c\<in>set s. is_space c \<Longrightarrow> parse_labels (Some (strip s)) = []"
  by (simp add: strip_Nil_iff [symmetric] parse_labels_def)

lemma row_default_empty:
  "r col = None \<or> r col = Some None \<Longrightarrow>
     or_empty (row_get r c) = or_empty (row_get (r(col := Some (Some []))) c)"
  by (auto simp: row_get_def or_empty_def)

lemma FIELD_MAP_summary:
  "filter (\<lambda>cf. snd cf = ustr ''summary'') FIELD_MAP = [(ustr ''Summary'', ustr ''summary'')]"
  by (simp add: FIELD_MAP_def ustr_def)

lemma FIELD_MAP_labels:
  "filter (\<lambda>cf. snd cf = ustr ''labels'') FIELD_MAP = [(ustr ''Labels'', ustr ''labels'')]"
  by (simp add: FIELD_MAP_def ustr_def)

lemma strip_example: "strip (ustr '' Fix bug '') = ustr ''Fix bug''"
  by (simp add: strip_def lstrip_def rstrip_def ustr_def is_space_def)

section \<open>Lemmas on the document converter\<close>

lemma splitlines_aux_list_all:
  "list_all (\<lambda>c. \<not> is_linebreak c) cur \<Longrightarrow>
     list_all (list_all (\<lambda>c. \<not> is_linebreak c)) (splitlines_aux cur s)"
  by (induction cur s rule: splitlines_aux.induct) simp_all

lemma splitlines_aux_no_break:
  "\<forall>c\<in>set cur. \<not> is_linebreak c \<Longrightarrow>
     \<forall>l\<in>set (splitlines_aux cur s). \<forall>c\<in>set l. \<not> is_linebreak c"
  using splitlines_aux_list_all [of cur s] by (simp add: list_all_iff)

lemma splitlines_Nil_iff: "splitlines s = [] \<longleftrightarrow> s = []"
  by (simp add: splitlines_def splitlines_aux_Nil_iff)

lemma length_splitlines: "s \<noteq> [] \<Longrightarrow> length (splitlines s) = num_lines s"
  by (simp add: splitlines_def length_splitlines_aux num_lines_def)

lemma to_adf_doc_eq:
  "to_adf_doc (Some s) =
     JObj [(ustr ''type'', JStr (ustr ''doc'')), (ustr ''version'', JInt 1),
           (ustr ''content'', JList (map paragraph_node (if s = [] then [[]] else splitlines s)))]"
  by (simp add: to_adf_doc_def or_empty_def Let_def splitlines_Nil_iff)

lemma to_adf_doc_None: "to_adf_doc None = to_adf_doc (Some [])"
  by (simp add: to_adf_doc_def or_empty_def)

section \<open>Lemmas: settings, request and response\<close>

lemma ustr_slash: "ustr ''/'' = [47]"
  by (simp add: ustr_def)

lemma rstrip_chars_append_replicate:
  "rstrip_chars [c] (b @ replicate n c) = rstrip_chars [c] b"
proof -
  have "dropWhile (\<lambda>x. x \<in> set [c]) (replicate n c @ rev b) =
        dropWhile (\<lambda>x. x \<in> set [c]) (rev b)"
    by (rule dropWhile_append2) simp
  then show ?thesis by (simp add: rstrip_chars_def)
qed

lemma rstrip_chars_id:
  "b \<noteq> [] \<longrightarrow> last b \<noteq> c \<Longrightarrow> rstrip_chars [c] b = b"
  by (cases b rule: rev_cases) (simp_all add: rstrip_chars_def)

lemma jira_base_url_eq:
  assumes "env (ustr ''JIRA_BASE_URL'') = Some (b @ replicate n 47)"
    and "b @ replicate n 47 \<noteq> []" and "b \<noteq> [] \<longrightarrow> last b \<noteq> 47"
  shows "jira_base_url env = Inr b"
proof -
  have "env_required env (ustr ''JIRA_BASE_URL'') = Inr (b @ replicate n 47)"
    using assms(1,2) by (simp add: env_required_def)
  moreover have "rstrip_chars [47] (b @ replicate n 47) = b"
    using assms(3) by (simp only: rstrip_chars_append_replicate rstrip_chars_id)
  ultimately show ?thesis by (simp add: jira_base_url_def ustr_slash)
qed

lemma create_issue_post:
  assumes "jira_base_url env = Inr base"
    and "env_required env (ustr ''JIRA_PROJECT_KEY'') = Inr pk"
    and "jira_auth env = Inr auth"
  shows "create_issue fm cfl env post w r =
        (case post w (issue_request fm cfl env base pk auth r) of
           (Inl msg, w') \<Rightarrow> (Inl (TransportError msg), w')
         | (Inr resp, w') \<Rightarrow> (handle_response resp, w'))"
  using assms by (simp add: create_issue_def issue_request_def Let_def)

lemma env_full_url:
  "env_full (ustr ''JIRA_BASE_URL'') =
     Some (ustr ''https://example.atlassian.net'' @ replicate 2 47)"
  by (simp add: env_full_def ustr_def numeral_2_eq_2)

lemma env_plain_url:
  "env_plain (ustr ''JIRA_BASE_URL'') =
     Some (ustr ''https://example.atlassian.net'' @ replicate 0 47)"
  by (simp add: env_plain_def)

lemma example_base:
  "ustr ''https://example.atlassian.net'' \<noteq> []"
  "last (ustr ''https://example.atlassian.net'') \<noteq> 47"
  by (simp_all add: ustr_def)

lemma env_full_base: "jira_base_url env_full = Inr (ustr ''https://example.atlassian.net'')"
  by (rule jira_base_url_eq [where env = env_full, OF env_full_url])
    (simp_all add: example_base)

lemma env_full_project: "env_required env_full (ustr ''JIRA_PROJECT_KEY'') = Inr (ustr ''PROJ'')"
  by (simp add: env_required_def env_full_def ustr_def)

lemma env_full_auth: "jira_auth env_full = Inr (ustr ''me@example.com'', ustr ''secret'')"
  by (simp add: jira_auth_def env_required_def env_full_def ustr_def)

lemma create_issue_scripted:
  "create_issue fm cfl env_full scripted (Inr resp # w) r = (handle_response resp, w)"
  by (simp add: create_issue_post [OF env_full_base env_full_project env_full_auth]
      scripted_def)

lemma handle_response_cases:
  "handle_response resp =
     (if 300 \<le> resp_status_code resp then
        Inl (HttpStatus (resp_status_code resp) (resp_text resp))
      else case key_of resp of
             Some k \<Rightarrow> Inr k
           | None \<Rightarrow>
               (case resp_json resp of
                  None \<Rightarrow> Inl JsonDecodeError
                | Some (JObj kv) \<Rightarrow> Inl (KeyError (ustr ''key''))
                | Some _ \<Rightarrow> Inl TypeError))"
  by (simp add: handle_response_def subscript_key_def key_of_def
      split: option.splits json.splits)

lemma handle_response_created: "handle_response resp_created = Inr (JStr (ustr ''PROJ-1''))"
  by (simp add: handle_response_def subscript_key_def resp_created_def)

lemma handle_response_informational:
  "handle_response resp_informational = Inr (JStr (ustr ''PROJ-1''))"
  by (simp add: handle_response_def subscript_key_def resp_informational_def)

lemma handle_response_bad_request:
  "handle_response resp_bad_request = Inl (HttpStatus 400 (ustr ''Bad Request''))"
  by (simp add: handle_response_def resp_bad_request_def)

section \<open>The label parser (C6)\<close>

text \<open>
  C6. \<open>parse_labels\<close> maps a missing value and the empty string to the empty sequence.
  For every input string it splits at the commas (the pieces contain no comma and,
  joined by commas, give the input back), trims each piece and drops the pieces that are
  empty after trimming; the remaining pieces keep their order and their duplicates. In
  particular \<open>parse_labels("a, b ,,c") = ["a", "b", "c"]\<close>.
\<close>

theorem parse_labels_spec:
  "parse_labels None = []
   \<and> parse_labels (Some []) = []
   \<and> parse_labels (Some v) = filter (\<lambda>p. p \<noteq> []) (map strip (split_on 44 v))
   \<and> join_with 44 (split_on 44 v) = v
   \<and> (\<forall>p\<in>set (split_on 44 v). 44 \<notin> set p)
   \<and> parse_labels (Some (ustr ''a, b ,,c'')) = [ustr ''a'', ustr ''b'', ustr ''c'']
   \<and> parse_labels (Some (ustr ''b,a,b'')) = [ustr ''b'', ustr ''a'', ustr ''b'']"
proof -
  have none: "parse_labels None = []" "parse_labels (Some []) = []"
    by (simp_all add: parse_labels_def)
  have join: "join_with 44 (split_on 44 v) = v"
    by (simp add: split_on_def join_split_aux)
  have nosep: "\<forall>p\<in>set (split_on 44 v). 44 \<notin> set p"
    unfolding split_on_def by (rule split_aux_no_sep) simp
  have ex1: "parse_labels (Some (ustr ''a, b ,,c'')) = [ustr ''a'', ustr ''b'', ustr ''c'']"
    by (simp add: parse_labels_def split_on_def ustr_def strip_def lstrip_def rstrip_def
        is_space_def)
  have ex2: "parse_labels (Some (ustr ''b,a,b'')) = [ustr ''b'', ustr ''a'', ustr ''b'']"
    by (simp add: parse_labels_def split_on_def ustr_def strip_def lstrip_def rstrip_def
        is_space_def)
  from none parse_labels_eq join nosep ex1 ex2 show ?thesis by blast
qed

theorem parse_labels_spec_witness:
  "ustr ''a'' \<in> set (split_on 44 (ustr ''a, b ,,c''))
   \<and> 44 \<notin> set (ustr ''a'')
   \<and> join_with 44 (split_on 44 (ustr ''a, b ,,c'')) = ustr ''a, b ,,c''
   \<and> parse_labels (Some (ustr ''a, b ,,c'')) =
       filter (\<lambda>p. p \<noteq> []) (map strip (split_on 44 (ustr ''a, b ,,c'')))"
proof -
  have mem: "ustr ''a'' \<in> set (split_on 44 (ustr ''a, b ,,c''))"
    by (simp add: split_on_def ustr_def)
  with parse_labels_spec [of "ustr ''a, b ,,c''"] show ?thesis by blast
qed

section \<open>The field mapper (C5, C7, C8)\<close>

text \<open>
  C5. Let exactly one column of the field map be mapped to \<open>summary\<close>. For every row, the
  payload has no \<open>summary\<close> entry when the cell of that column is empty or consists of
  white space only (a missing cell counts as empty), and otherwise has the cell's value,
  trimmed, under \<open>summary\<close>.
\<close>

theorem summary_entry:
  assumes "filter (\<lambda>cf. snd cf = ustr ''summary'') fm = [(col, ustr ''summary'')]"
  shows "\<exists>flds. create_issue_payload fm cfl r pk it ek aid = JObj [(ustr ''fields'', JObj flds)]
     \<and> ((\<forall>c\<in>set (or_empty (row_get r col)). is_space c) \<longrightarrow>
          map_of flds (ustr ''summary'') = None)
     \<and> (\<not> (\<forall>c\<in>set (or_empty (row_get r col)). is_space c) \<longrightarrow>
          map_of flds (ustr ''summary'') = Some (JStr (strip (or_empty (row_get r col)))))"
proof -
  let ?k = "ustr ''summary''"
  let ?f0 = "[(ustr ''project'', JObj [(ustr ''key'', JStr pk)]),
              (ustr ''issuetype'', JObj [(ustr ''name'', JStr it)])]"
  let ?val = "strip (or_empty (row_get r col))"
  from single_target_split [OF assms] obtain fm1 fm2 where
    fm: "fm = fm1 @ (col, ?k) # fm2" and n1: "?k \<notin> snd ` set fm1" and n2: "?k \<notin> snd ` set fm2"
    by blast
  have before: "map_of (foldl (map_field cfl r) ?f0 fm1) ?k = None"
    using n1 by (rule foldl_map_field_fresh) (simp_all add: key_facts)
  have "map_of (foldl (map_field cfl r) ?f0 fm) ?k =
        map_of (map_field cfl r (foldl (map_field cfl r) ?f0 fm1) (col, ?k)) ?k"
    unfolding fm using n2 by (rule foldl_map_field_last)
  also have "\<dots> = (if ?val = [] then None else Some (JStr ?val))"
    by (simp add: map_field_eq field_value_summary update_conv' before)
  finally have look: "map_of (foldl (map_field cfl r) ?f0 fm) ?k =
        (if ?val = [] then None else Some (JStr ?val))" .
  from payload_fields [of ?k fm cfl r pk it ek aid] obtain flds where
    p: "create_issue_payload fm cfl r pk it ek aid = JObj [(ustr ''fields'', JObj flds)]"
    and m: "map_of flds ?k = map_of (foldl (map_field cfl r) ?f0 fm) ?k"
    by (auto simp: key_facts)
  from m look have "map_of flds ?k = (if ?val = [] then None else Some (JStr ?val))" by simp
  with p show ?thesis by (auto simp: strip_Nil_iff)
qed

theorem summary_entry_witness:
  "filter (\<lambda>cf. snd cf = ustr ''summary'') FIELD_MAP = [(ustr ''Summary'', ustr ''summary'')]
   \<and> (\<exists>flds. create_issue_payload FIELD_MAP CUSTOM_FIELD_AS_LIST
                ((\<lambda>k. None)(ustr ''Summary'' := Some (Some (ustr '' Fix bug ''))))
                (ustr ''PROJ'') (ustr ''Task'') None None = JObj [(ustr ''fields'', JObj flds)]
          \<and> map_of flds (ustr ''summary'') = Some (JStr (ustr ''Fix bug'')))
   \<and> (\<exists>flds. create_issue_payload FIELD_MAP CUSTOM_FIELD_AS_LIST
                ((\<lambda>k. None)(ustr ''Summary'' := Some (Some [32, 9])))
                (ustr ''PROJ'') (ustr ''Task'') None None = JObj [(ustr ''fields'', JObj flds)]
          \<and> map_of flds (ustr ''summary'') = None)"
proof -
  let ?r1 = "(\<lambda>k. None)(ustr ''Summary'' := Some (Some (ustr '' Fix bug '')))"
  let ?r2 = "(\<lambda>k. None)(ustr ''Summary'' := Some (Some [32, 9 :: nat]))"
  have c1: "or_empty (row_get ?r1 (ustr ''Summary'')) = ustr '' Fix bug ''"
    by (simp add: row_get_def or_empty_def)
  have c2: "or_empty (row_get ?r2 (ustr ''Summary'')) = [32, 9]"
    by (simp add: row_get_def or_empty_def)
  have n1: "\<not> (\<forall>c\<in>set (ustr '' Fix bug ''). is_space c)"
    by (simp add: ustr_def is_space_def)
  have n2: "\<forall>c\<in>set [32, 9 :: nat]. is_space c"
    by (simp add: is_space_def)
  from summary_entry [OF FIELD_MAP_summary, of CUSTOM_FIELD_AS_LIST ?r1 "ustr ''PROJ''"
      "ustr ''Task''" None None]
  have e1: "\<exists>flds. create_issue_payload FIELD_MAP CUSTOM_FIELD_AS_LIST ?r1
                (ustr ''PROJ'') (ustr ''Task'') None None = JObj [(ustr ''fields'', JObj flds)]
          \<and> map_of flds (ustr ''summary'') = Some (JStr (ustr ''Fix bug''))"
    unfolding c1 strip_example using n1 by blast
  from summary_entry [OF FIELD_MAP_summary, of CUSTOM_FIELD_AS_LIST ?r2 "ustr ''PROJ''"
      "ustr ''Task''" None None]
  have e2: "\<exists>flds. create_issue_payload FIELD_MAP CUSTOM_FIELD_AS_LIST ?r2
                (ustr ''PROJ'') (ustr ''Task'') None None = JObj [(ustr ''fields'', JObj flds)]
          \<and> map_of flds (ustr ''summary'') = None"
    unfolding c2 using n2 by blast
  from FIELD_MAP_summary e1 e2 show ?thesis by blast
qed

text \<open>
  C8. When a column is mapped to \<open>labels\<close>, the payload always has a \<open>labels\<close> entry, and
  its value is a sequence of strings. When exactly one column is mapped to \<open>labels\<close>, the
  value is the parsed, trimmed cell; for an empty or white-space-only cell it is the empty
  sequence (whereas \<open>summary\<close> is left out then).
\<close>

theorem labels_entry:
  "((c, ustr ''labels'') \<in> set fm \<longrightarrow>
      (\<exists>flds ls. create_issue_payload fm cfl r pk it ek aid = JObj [(ustr ''fields'', JObj flds)]
         \<and> map_of flds (ustr ''labels'') = Some (JList (map JStr ls))))
   \<and> (filter (\<lambda>cf. snd cf = ustr ''labels'') fm = [(col, ustr ''labels'')] \<longrightarrow>
      (\<exists>flds. create_issue_payload fm cfl r pk it ek aid = JObj [(ustr ''fields'', JObj flds)]
         \<and> map_of flds (ustr ''labels'') =
             Some (JList (map JStr (parse_labels (Some (strip (or_empty (row_get r col)))))))
         \<and> ((\<forall>c\<in>set (or_empty (row_get r col)). is_space c) \<longrightarrow>
              map_of flds (ustr ''labels'') = Some (JList []))))"
proof -
  let ?k = "ustr ''labels''"
  let ?f0 = "[(ustr ''project'', JObj [(ustr ''key'', JStr pk)]),
              (ustr ''issuetype'', JObj [(ustr ''name'', JStr it)])]"
  from payload_fields [of ?k fm cfl r pk it ek aid] obtain flds where
    p: "create_issue_payload fm cfl r pk it ek aid = JObj [(ustr ''fields'', JObj flds)]"
    and m: "map_of flds ?k = map_of (foldl (map_field cfl r) ?f0 fm) ?k"
    by (auto simp: key_facts)
  have last: "map_of flds ?k = Some (JList (map JStr (parse_labels (Some (strip (or_empty (row_get r x)))))))"
    if "fm = fm1 @ (x, ?k) # fm2" and "?k \<notin> snd ` set fm2" for fm1 fm2 x
  proof -
    have "map_of (foldl (map_field cfl r) ?f0 fm) ?k =
          map_of (map_field cfl r (foldl (map_field cfl r) ?f0 fm1) (x, ?k)) ?k"
      unfolding that(1) using that(2) by (rule foldl_map_field_last)
    then show ?thesis
      by (simp add: m map_field_eq field_value_labels update_conv' key_facts)
  qed
  have A: "\<exists>flds ls. create_issue_payload fm cfl r pk it ek aid = JObj [(ustr ''fields'', JObj flds)]
         \<and> map_of flds ?k = Some (JList (map JStr ls))" if "(c, ?k) \<in> set fm"
  proof -
    from that have "\<exists>x\<in>set fm. snd x = ?k" by force
    then obtain ys x zs where x: "fm = ys @ x # zs" "snd x = ?k"
      and zs: "\<forall>z\<in>set zs. snd z \<noteq> ?k"
      using split_list_last_prop [of fm "\<lambda>x. snd x = ?k"] by blast
    from x have "fm = ys @ (fst x, ?k) # zs" by (cases x) simp
    moreover from zs have "?k \<notin> snd ` set zs" by force
    ultimately show ?thesis using last p by blast
  qed
  have B: "\<exists>flds. create_issue_payload fm cfl r pk it ek aid = JObj [(ustr ''fields'', JObj flds)]
         \<and> map_of flds ?k =
             Some (JList (map JStr (parse_labels (Some (strip (or_empty (row_get r col)))))))
         \<and> ((\<forall>c\<in>set (or_empty (row_get r col)). is_space c) \<longrightarrow>
              map_of flds ?k = Some (JList []))"
    if "filter (\<lambda>cf. snd cf = ?k) fm = [(col, ?k)]"
  proof -
    from single_target_split [OF that] obtain fm1 fm2 where
      "fm = fm1 @ (col, ?k) # fm2" "?k \<notin> snd ` set fm2" by blast
    from last [OF this] p show ?thesis by (auto simp: parse_labels_strip_blank)
  qed
  from A B show ?thesis by blast
qed

theorem labels_entry_witness:
  "(ustr ''Labels'', ustr ''labels'') \<in> set FIELD_MAP
   \<and> filter (\<lambda>cf. snd cf = ustr ''labels'') FIELD_MAP = [(ustr ''Labels'', ustr ''labels'')]
   \<and> (\<exists>flds. create_issue_payload FIELD_MAP CUSTOM_FIELD_AS_LIST
                ((\<lambda>k. None)(ustr ''Labels'' := Some (Some [32])))
                (ustr ''PROJ'') (ustr ''Task'') None None = JObj [(ustr ''fields'', JObj flds)]
          \<and> map_of flds (ustr ''labels'') = Some (JList []))"
proof -
  let ?r = "(\<lambda>k. None)(ustr ''Labels'' := Some (Some [32 :: nat]))"
  have mem: "(ustr ''Labels'', ustr ''labels'') \<in> set FIELD_MAP"
    by (simp add: FIELD_MAP_def)
  have c: "or_empty (row_get ?r (ustr ''Labels'')) = [32]"
    by (simp add: row_get_def or_empty_def)
  have n: "\<forall>c\<in>set [32 :: nat]. is_space c"
    by (simp add: is_space_def)
  from labels_entry [of "ustr ''Labels''" FIELD_MAP CUSTOM_FIELD_AS_LIST ?r "ustr ''PROJ''"
      "ustr ''Task''" None None "ustr ''Labels''"] FIELD_MAP_labels
  have "\<exists>flds. create_issue_payload FIELD_MAP CUSTOM_FIELD_AS_LIST ?r
                (ustr ''PROJ'') (ustr ''Task'') None None = JObj [(ustr ''fields'', JObj flds)]
          \<and> map_of flds (ustr ''labels'') = Some (JList [])"
    unfolding c using n by blast
  with mem FIELD_MAP_labels show ?thesis by blast
qed

text \<open>
  C7. For a row in which a column is missing, or present with the value \<open>None\<close>, the cell
  reads as the empty string, and payload construction gives the very payload of the row
  that has the empty string in that column. \<open>create_issue_payload\<close> has no failing branch:
  it returns a payload for every row.
\<close>

theorem missing_column_as_empty:
  assumes "r col = None \<or> r col = Some None"
  shows "or_empty (row_get r col) = []
     \<and> create_issue_payload fm cfl r pk it ek aid =
         create_issue_payload fm cfl (r(col := Some (Some []))) pk it ek aid"
proof -
  have "foldl (map_field cfl r) flds fm = foldl (map_field cfl (r(col := Some (Some [])))) flds fm"
    for flds
    by (rule foldl_map_field_cong_row) (use assms in \<open>rule row_default_empty\<close>)
  moreover have "or_empty (row_get r col) = []"
    using assms by (auto simp: row_get_def or_empty_def)
  ultimately show ?thesis by (simp add: create_issue_payload_def)
qed

theorem missing_column_as_empty_witness:
  "((\<lambda>k. None) :: row) (ustr ''Summary'') = None
   \<and> or_empty (row_get (\<lambda>k. None) (ustr ''Summary'')) = []
   \<and> create_issue_payload FIELD_MAP CUSTOM_FIELD_AS_LIST (\<lambda>k. None)
        (ustr ''PROJ'') (ustr ''Task'') None None =
      create_issue_payload FIELD_MAP CUSTOM_FIELD_AS_LIST
        ((\<lambda>k. None)(ustr ''Summary'' := Some (Some [])))
        (ustr ''PROJ'') (ustr ''Task'') None None"
  using missing_column_as_empty [of "\<lambda>k. None" "ustr ''Summary''" FIELD_MAP
      CUSTOM_FIELD_AS_LIST "ustr ''PROJ''" "ustr ''Task''" None None]
  by simp

section \<open>The document converter (C2, C9)\<close>

text \<open>
  C2. \<open>to_adf_doc\<close> is a function defined on every string (and on \<open>None\<close>, which it
  treats as the empty string). Its result is a dictionary tagged \<open>doc\<close> with version 1
  whose content has as many paragraphs as the text has lines, and exactly one paragraph
  for the empty text; the paragraph of a line holds exactly one text node, with the line
  as its text. The lines are those of \<open>splitlines\<close>: they contain no line boundary, and
  together they are the text with its line boundaries removed.
\<close>

theorem to_adf_doc_paragraph_per_line:
  "to_adf_doc None = to_adf_doc (Some [])
   \<and> (\<exists>paras. to_adf_doc (Some s) =
          JObj [(ustr ''type'', JStr (ustr ''doc'')), (ustr ''version'', JInt 1),
                (ustr ''content'', JList paras)]
        \<and> length paras = (if s = [] then 1 else num_lines s)
        \<and> paras =
            map (\<lambda>line. JObj [(ustr ''type'', JStr (ustr ''paragraph'')),
                              (ustr ''content'',
                                 JList [JObj [(ustr ''type'', JStr (ustr ''text'')),
                                              (ustr ''text'', JStr line)]])])
              (if s = [] then [[]] else splitlines s))
   \<and> concat (splitlines s) = filter (\<lambda>c. \<not> is_linebreak c) s
   \<and> (\<forall>line\<in>set (splitlines s). \<forall>c\<in>set line. \<not> is_linebreak c)"
proof -
  have pn: "paragraph_node =
      (\<lambda>line. JObj [(ustr ''type'', JStr (ustr ''paragraph'')),
                    (ustr ''content'',
                       JList [JObj [(ustr ''type'', JStr (ustr ''text'')),
                                    (ustr ''text'', JStr line)]])])"
    by (rule ext) (simp add: paragraph_node_def)
  have len: "length (map paragraph_node (if s = [] then [[]] else splitlines s)) =
      (if s = [] then 1 else num_lines s)"
    by (simp add: length_splitlines)
  have cc: "concat (splitlines s) = filter (\<lambda>c. \<not> is_linebreak c) s"
    by (simp add: splitlines_def concat_splitlines_aux)
  have nb: "\<forall>line\<in>set (splitlines s). \<forall>c\<in>set line. \<not> is_linebreak c"
    unfolding splitlines_def by (rule splitlines_aux_no_break) simp
  from to_adf_doc_None to_adf_doc_eq [of s] len cc nb show ?thesis
    unfolding pn by blast
qed

theorem to_adf_doc_paragraph_per_line_witness:
  "num_lines (ustr ''ab'' @ [10] @ ustr ''c'') = 2
   \<and> ustr ''ab'' \<in> set (splitlines (ustr ''ab'' @ [10] @ ustr ''c''))
   \<and> (\<exists>paras. to_adf_doc (Some (ustr ''ab'' @ [10] @ ustr ''c'')) =
          JObj [(ustr ''type'', JStr (ustr ''doc'')), (ustr ''version'', JInt 1),
                (ustr ''content'', JList paras)]
        \<and> length paras = 2)"
proof -
  let ?s = "ustr ''ab'' @ [10] @ ustr ''c''"
  have n: "num_lines ?s = 2"
    by (simp add: num_lines_def num_terminators_def crlf_pairs_def ustr_def is_linebreak_def)
  have ne: "?s \<noteq> []" by simp
  have m: "ustr ''ab'' \<in> set (splitlines ?s)"
    by (simp add: splitlines_def ustr_def is_linebreak_def)
  from to_adf_doc_paragraph_per_line [of ?s] obtain paras where
    p: "to_adf_doc (Some ?s) =
          JObj [(ustr ''type'', JStr (ustr ''doc'')), (ustr ''version'', JInt 1),
                (ustr ''content'', JList paras)]"
    and l: "length paras = (if ?s = [] then 1 else num_lines ?s)"
    by blast
  from l ne have "length paras = 2" unfolding n by simp
  with p n m show ?thesis by blast
qed

text \<open>
  C9. A text that ends with a line terminator gets one paragraph per terminator and none
  for the empty remainder after the last one; appending a terminator to a text whose last
  line is unterminated leaves the document unchanged. \<open>"line1\n"\<close> gives the single
  paragraph \<open>line1\<close>, and \<open>"\n"\<close> gives one paragraph with empty text, as the empty
  string does.
\<close>

theorem to_adf_doc_no_trailing_paragraph:
  "(s \<noteq> [] \<and> is_linebreak (last s) \<longrightarrow>
      (\<exists>paras. to_adf_doc (Some s) =
          JObj [(ustr ''type'', JStr (ustr ''doc'')), (ustr ''version'', JInt 1),
                (ustr ''content'', JList paras)]
        \<and> length paras = num_terminators s))
   \<and> (body \<noteq> [] \<and> \<not> is_linebreak (last body) \<and> is_linebreak t \<longrightarrow>
        to_adf_doc (Some (body @ [t])) = to_adf_doc (Some body))
   \<and> to_adf_doc (Some (ustr ''line1'' @ [10])) =
       JObj [(ustr ''type'', JStr (ustr ''doc'')), (ustr ''version'', JInt 1),
             (ustr ''content'', JList [paragraph_node (ustr ''line1'')])]
   \<and> to_adf_doc (Some [10]) =
       JObj [(ustr ''type'', JStr (ustr ''doc'')), (ustr ''version'', JInt 1),
             (ustr ''content'', JList [paragraph_node []])]
   \<and> to_adf_doc (Some [10]) = to_adf_doc (Some [])"
proof -
  have A: "\<exists>paras. to_adf_doc (Some s) =
          JObj [(ustr ''type'', JStr (ustr ''doc'')), (ustr ''version'', JInt 1),
                (ustr ''content'', JList paras)]
        \<and> length paras = num_terminators s" if "s \<noteq> []" "is_linebreak (last s)"
    using that by (simp add: to_adf_doc_eq length_splitlines num_lines_def)
  have B: "to_adf_doc (Some (body @ [t])) = to_adf_doc (Some body)"
    if "body \<noteq> []" "\<not> is_linebreak (last body)" "is_linebreak t"
    using that by (simp add: to_adf_doc_eq splitlines_def splitlines_aux_append_break)
  have C: "to_adf_doc (Some (ustr ''line1'' @ [10])) =
       JObj [(ustr ''type'', JStr (ustr ''doc'')), (ustr ''version'', JInt 1),
             (ustr ''content'', JList [paragraph_node (ustr ''line1'')])]"
    by (simp add: to_adf_doc_def splitlines_def or_empty_def ustr_def is_linebreak_def)
  have D: "to_adf_doc (Some [10]) =
       JObj [(ustr ''type'', JStr (ustr ''doc'')), (ustr ''version'', JInt 1),
             (ustr ''content'', JList [paragraph_node []])]"
    by (simp add: to_adf_doc_def splitlines_def or_empty_def is_linebreak_def)
  have E: "to_adf_doc (Some [10]) = to_adf_doc (Some [])"
    by (simp add: to_adf_doc_def splitlines_def or_empty_def is_linebreak_def)
  from A B C D E show ?thesis by blast
qed

theorem to_adf_doc_no_trailing_paragraph_witness:
  "ustr ''line1'' @ [10] \<noteq> []
   \<and> is_linebreak (last (ustr ''line1'' @ [10]))
   \<and> num_terminators (ustr ''line1'' @ [10]) = 1
   \<and> \<not> is_linebreak (last (ustr ''line1''))
   \<and> (\<exists>paras. to_adf_doc (Some (ustr ''line1'' @ [10])) =
          JObj [(ustr ''type'', JStr (ustr ''doc'')), (ustr ''version'', JInt 1),
                (ustr ''content'', JList paras)]
        \<and> length paras = 1)
   \<and> to_adf_doc (Some (ustr ''line1'' @ [10])) = to_adf_doc (Some (ustr ''line1''))"
proof -
  let ?s = "ustr ''line1'' @ [10]"
  have a: "?s \<noteq> []" by simp
  have b: "is_linebreak (last ?s)" by (simp add: is_linebreak_def)
  have c: "num_terminators ?s = 1"
    by (simp add: num_terminators_def crlf_pairs_def ustr_def is_linebreak_def)
  have d: "ustr ''line1'' \<noteq> []" by (simp add: ustr_def)
  have e: "\<not> is_linebreak (last (ustr ''line1''))" by (simp add: ustr_def is_linebreak_def)
  have f: "is_linebreak 10" by (simp add: is_linebreak_def)
  note T = to_adf_doc_no_trailing_paragraph [of ?s "ustr ''line1''" 10]
  from T a b have "\<exists>paras. to_adf_doc (Some ?s) =
          JObj [(ustr ''type'', JStr (ustr ''doc'')), (ustr ''version'', JInt 1),
                (ustr ''content'', JList paras)]
        \<and> length paras = num_terminators ?s" by blast
  then have p: "\<exists>paras. to_adf_doc (Some ?s) =
          JObj [(ustr ''type'', JStr (ustr ''doc'')), (ustr ''version'', JInt 1),
                (ustr ''content'', JList paras)]
        \<and> length paras = 1" unfolding c .
  from T d e f have q: "to_adf_doc (Some ?s) = to_adf_doc (Some (ustr ''line1''))" by blast
  from a b c e p q show ?thesis by blast
qed

section \<open>The base URL (C10)\<close>

text \<open>
  C10. Let the configured base URL be \<open>b\<close> followed by any number \<open>n\<close> of slashes, where
  \<open>b\<close> does not end in a slash (and the setting is not empty). Then \<open>jira_base_url\<close> is
  \<open>b\<close>: all trailing slashes are stripped. A second configuration whose base URL is \<open>b\<close>
  followed by \<open>m\<close> slashes gives the same base. With project key and credentials
  present, \<open>create_issue\<close> posts the request \<open>issue_request\<close>, whose URL is \<open>b\<close> followed
  by \<open>/rest/api/3/issue\<close>: one slash at the joint.
\<close>

theorem base_url_trailing_slashes:
  assumes "env (ustr ''JIRA_BASE_URL'') = Some (b @ replicate n 47)"
    and "b @ replicate n 47 \<noteq> []"
    and "b \<noteq> [] \<longrightarrow> last b \<noteq> 47"
    and "env' (ustr ''JIRA_BASE_URL'') = Some (b @ replicate m 47)"
    and "b @ replicate m 47 \<noteq> []"
    and "env_required env (ustr ''JIRA_PROJECT_KEY'') = Inr pk"
    and "jira_auth env = Inr auth"
  shows "jira_base_url env = Inr b
     \<and> jira_base_url env' = jira_base_url env
     \<and> create_issue fm cfl env post w r =
         (case post w (issue_request fm cfl env b pk auth r) of
            (Inl msg, w') \<Rightarrow> (Inl (TransportError msg), w')
          | (Inr resp, w') \<Rightarrow> (handle_response resp, w'))
     \<and> req_url (issue_request fm cfl env b pk auth r) = b @ ustr ''/rest/api/3/issue''"
proof -
  have 1: "jira_base_url env = Inr b"
    using assms(1,2,3) by (rule jira_base_url_eq)
  have 2: "jira_base_url env' = Inr b"
    using assms(4,5,3) by (rule jira_base_url_eq)
  have 3: "req_url (issue_request fm cfl env b pk auth r) = b @ ustr ''/rest/api/3/issue''"
    by (simp add: issue_request_def issue_url_def)
  from 1 2 3 create_issue_post [OF 1 assms(6,7)] show ?thesis by simp
qed

theorem base_url_trailing_slashes_witness:
  "jira_base_url env_full = Inr (ustr ''https://example.atlassian.net'')
   \<and> jira_base_url env_plain = jira_base_url env_full
   \<and> req_url (issue_request FIELD_MAP CUSTOM_FIELD_AS_LIST env_full
        (ustr ''https://example.atlassian.net'') (ustr ''PROJ'')
        (ustr ''me@example.com'', ustr ''secret'') example_row) =
      ustr ''https://example.atlassian.net/rest/api/3/issue''"
proof -
  have j: "ustr ''https://example.atlassian.net'' @ ustr ''/rest/api/3/issue'' =
      ustr ''https://example.atlassian.net/rest/api/3/issue''"
    by (simp add: ustr_def)
  have ne: "ustr ''https://example.atlassian.net'' @ replicate k 47 \<noteq> []" for k
    by (simp add: example_base)
  have l: "ustr ''https://example.atlassian.net'' \<noteq> [] \<longrightarrow>
      last (ustr ''https://example.atlassian.net'') \<noteq> 47"
    by (simp add: example_base)
  note T = base_url_trailing_slashes [where env = env_full and env' = env_plain
      and fm = FIELD_MAP and cfl = CUSTOM_FIELD_AS_LIST and post = scripted and w = "[]"
      and r = example_row,
      OF env_full_url ne l env_plain_url ne env_full_project env_full_auth]
  from T show ?thesis unfolding j by blast
qed

section \<open>Success and failure of a request (C3)\<close>

text \<open>
  C3, as stated, fails: success is not confined to the status codes 200 to 299. The guard
  of source line 147 rejects the codes from 300 on, so a response with status 199 whose
  body holds a key is a success.
\<close>

theorem create_issue_accepts_below_200:
  "create_issue FIELD_MAP CUSTOM_FIELD_AS_LIST env_full scripted [Inr resp_informational]
       example_row = (Inr (JStr (ustr ''PROJ-1'')), [])
   \<and> resp_status_code resp_informational = 199
   \<and> \<not> (200 \<le> resp_status_code resp_informational \<and> resp_status_code resp_informational < 300)"
  by (simp add: create_issue_scripted handle_response_informational)
    (simp add: resp_informational_def)

text \<open>
  C3, amended. Let the settings be present and let the service answer the request with a
  response. Issue creation succeeds if and only if the status code is below 300 and the
  identifier can be extracted from the body, and it then returns that identifier. For a
  status code of 300 or more it signals an error carrying the status code and the
  response text. For a status code below 300 and a body from which no identifier can be
  extracted it signals a parse failure: the body is not JSON, is not an object, or has no
  \<open>key\<close>.
\<close>

theorem create_issue_outcome:
  assumes "jira_base_url env = Inr base"
    and "env_required env (ustr ''JIRA_PROJECT_KEY'') = Inr pk"
    and "jira_auth env = Inr auth"
    and "post w (issue_request fm cfl env base pk auth r) = (Inr resp, w')"
  shows "((\<exists>k. fst (create_issue fm cfl env post w r) = Inr k) \<longleftrightarrow>
            resp_status_code resp < 300 \<and> key_of resp \<noteq> None)
     \<and> (resp_status_code resp < 300 \<and> key_of resp = Some k \<longrightarrow>
            fst (create_issue fm cfl env post w r) = Inr k)
     \<and> (300 \<le> resp_status_code resp \<longrightarrow>
            fst (create_issue fm cfl env post w r) =
              Inl (HttpStatus (resp_status_code resp) (resp_text resp)))
     \<and> (resp_status_code resp < 300 \<and> key_of resp = None \<longrightarrow>
            fst (create_issue fm cfl env post w r) \<in>
              {Inl JsonDecodeError, Inl (KeyError (ustr ''key'')), Inl TypeError})"
proof -
  have c: "fst (create_issue fm cfl env post w r) = handle_response resp"
    using assms(4) by (simp add: create_issue_post [OF assms(1,2,3)])
  show ?thesis
    unfolding c handle_response_cases
    by (simp split: option.splits json.splits)
qed

theorem create_issue_outcome_witness:
  "fst (create_issue FIELD_MAP CUSTOM_FIELD_AS_LIST env_full scripted
          [Inr resp_created] example_row) = Inr (JStr (ustr ''PROJ-1''))
   \<and> fst (create_issue FIELD_MAP CUSTOM_FIELD_AS_LIST env_full scripted
          [Inr resp_bad_request] example_row) = Inl (HttpStatus 400 (ustr ''Bad Request''))
   \<and> resp_status_code resp_created < 300
   \<and> key_of resp_created = Some (JStr (ustr ''PROJ-1''))
   \<and> 300 \<le> resp_status_code resp_bad_request"
proof -
  have p1: "scripted [Inr resp_created] req = (Inr resp_created, [])" for req
    by (simp add: scripted_def)
  have p2: "scripted [Inr resp_bad_request] req = (Inr resp_bad_request, [])" for req
    by (simp add: scripted_def)
  have a: "resp_status_code resp_created < 300"
    and b: "key_of resp_created = Some (JStr (ustr ''PROJ-1''))"
    by (simp_all add: resp_created_def key_of_def)
  have d: "300 \<le> resp_status_code resp_bad_request"
    and e: "resp_status_code resp_bad_request = 400"
    and f: "resp_text resp_bad_request = ustr ''Bad Request''"
    by (simp_all add: resp_bad_request_def)
  note T1 = create_issue_outcome [where post = scripted and w = "[Inr resp_created]"
      and fm = FIELD_MAP and cfl = CUSTOM_FIELD_AS_LIST and r = example_row
      and k = "JStr (ustr ''PROJ-1'')",
      OF env_full_base env_full_project env_full_auth p1]
  note T2 = create_issue_outcome [where post = scripted and w = "[Inr resp_bad_request]"
      and fm = FIELD_MAP and cfl = CUSTOM_FIELD_AS_LIST and r = example_row
      and k = "JStr (ustr ''PROJ-1'')",
      OF env_full_base env_full_project env_full_auth p2]
  from T1 a b have r1: "fst (create_issue FIELD_MAP CUSTOM_FIELD_AS_LIST env_full scripted
          [Inr resp_created] example_row) = Inr (JStr (ustr ''PROJ-1''))" by blast
  from T2 d have "fst (create_issue FIELD_MAP CUSTOM_FIELD_AS_LIST env_full scripted
          [Inr resp_bad_request] example_row) =
      Inl (HttpStatus (resp_status_code resp_bad_request) (resp_text resp_bad_request))"
    by blast
  then have r2: "fst (create_issue FIELD_MAP CUSTOM_FIELD_AS_LIST env_full scripted
          [Inr resp_bad_request] example_row) = Inl (HttpStatus 400 (ustr ''Bad Request''))"
    unfolding e f .
  from r1 r2 a b d show ?thesis by blast
qed

end
